theory Spec2Isabelle
  imports Main "HOL-Library.Sublist"
begin

section \<open>Data of a diagnostic bundle\<close>

text \<open>
  Both scripts read the same JSON bundle: \<open>analysis.userMarkers\<close>, \<open>playerState\<close> and
  \<open>networkRequests\<close>. Timestamps are integer milliseconds (Python's unbounded ints).
  \<open>isAdRelated\<close> is read with \<open>r.get('isAdRelated')\<close>, so the key may be absent
  (\<open>None\<close>), and only its truth value is used.
\<close>

record marker =
  m_timestamp :: int
  m_event :: string

record network_request =
  r_timestamp :: int
  url :: string
  isAdRelated :: "bool option"


record period =
  p_start :: int
  p_end :: int
  p_duration :: int

definition truthy :: "bool option \<Rightarrow> bool" where
  "truthy v = (case v of None \<Rightarrow> False | Some b \<Rightarrow> b)"

text \<open>Python's \<open>sub in s\<close> on strings: \<open>sub\<close> occurs contiguously somewhere in \<open>s\<close>.\<close>

fun contains :: "string \<Rightarrow> string \<Rightarrow> bool" where
  "contains sub [] = (sub = [])"
| "contains sub (c # cs) = (prefix sub (c # cs) \<or> contains sub cs)"

section \<open>Grouping markers into ad periods\<close>

text \<open>
  The loop of both scripts:
  \<^verbatim>\<open>
  ad_periods = []
  for i in range(0, len(markers), 2):
      if i + 1 < len(markers):
          ad_periods.append({'start': markers[i]['timestamp'],
                             'end': markers[i+1]['timestamp'],
                             'duration': markers[i+1]['timestamp'] - markers[i]['timestamp']})
  \<close>
  \<open>ad_periods_loop markers i acc\<close> is the loop at index \<open>i\<close> with the list built so far.
  Both reads are guarded by \<open>i + 1 < len(markers)\<close>, so no index is out of range.
\<close>

definition mk_period :: "marker list \<Rightarrow> nat \<Rightarrow> period" where
  "mk_period markers i =
     \<lparr>p_start = m_timestamp (markers ! i),
      p_end = m_timestamp (markers ! (i + 1)),
      p_duration = m_timestamp (markers ! (i + 1)) - m_timestamp (markers ! i)\<rparr>"

function ad_periods_loop :: "marker list \<Rightarrow> nat \<Rightarrow> period list \<Rightarrow> period list" where
  "ad_periods_loop markers i acc =
     (if i < length markers
      then (if i + 1 < length markers
            then ad_periods_loop markers (i + 2) (acc @ [mk_period markers i])
            else ad_periods_loop markers (i + 2) acc)
      else acc)"
  by pat_completeness auto
termination
  by (relation "measure (\<lambda>(markers, i, acc). length markers - i)") auto

declare ad_periods_loop.simps [simp del]

definition ad_periods :: "marker list \<Rightarrow> period list" where
  "ad_periods markers = ad_periods_loop markers 0 []"

section \<open>Window building as a fallible operation\<close>

text \<open>
  \<open>UnpairedMarkerError\<close> is the failure the specification names for a marker list of odd
  length. A Python call either returns or raises, so the result of the grouping loop is a
  sum; the loop has no \<open>raise\<close> and its only subscripts are guarded, so every call
  returns the list it built.
\<close>

datatype error = UnpairedMarkerError

definition build_windows :: "marker list \<Rightarrow> error + period list" where
  "build_windows markers = Inr (ad_periods markers)"

section \<open>Events inside a period (\<open>analyze_diagnostic.py\<close>)\<close>



section \<open>The detection test (\<open>test_nbc_improvements.py\<close>)\<close>

text \<open>
  The weight table is the dict literal \<open>WEIGHTS\<close> with its four keys; the functions below
  take the table as an argument, and \<open>WEIGHTS\<close> is the table of the script.
\<close>

record weights =
  NETWORK_AD_DETECTED :: int
  PLAYER_CONTROLS_HIDDEN :: int
  PROGRESS_BAR_HIDDEN :: int
  BACK_TO_LIVE_HIDDEN :: int

definition WEIGHTS :: weights where
  "WEIGHTS = \<lparr>NETWORK_AD_DETECTED = 45, PLAYER_CONTROLS_HIDDEN = 35,
              PROGRESS_BAR_HIDDEN = 30, BACK_TO_LIVE_HIDDEN = 25\<rparr>"

definition MUTE_THRESHOLD :: int where
  "MUTE_THRESHOLD = 50"

definition sum_weights :: "weights \<Rightarrow> int" where
  "sum_weights W = NETWORK_AD_DETECTED W + PLAYER_CONTROLS_HIDDEN W
                   + PROGRESS_BAR_HIDDEN W + BACK_TO_LIVE_HIDDEN W"

definition nonneg_weights :: "weights \<Rightarrow> bool" where
  "nonneg_weights W \<longleftrightarrow> 0 \<le> NETWORK_AD_DETECTED W \<and> 0 \<le> PLAYER_CONTROLS_HIDDEN W
                        \<and> 0 \<le> PROGRESS_BAR_HIDDEN W \<and> 0 \<le> BACK_TO_LIVE_HIDDEN W"

text \<open>
  \<^verbatim>\<open>
  ad_requests = [r for r in network_requests
                 if period['start'] <= r['timestamp'] <= period['end'] and r.get('isAdRelated')]
  mediatailor_count = sum(1 for r in ad_requests if 'mediatailor' in r['url'])
  analytics_count = sum(1 for r in ad_requests if 'omtrdc.net' in r['url'])
  \<close>
\<close>

definition ad_requests :: "network_request list \<Rightarrow> period \<Rightarrow> network_request list" where
  "ad_requests network_requests period =
     [r \<leftarrow> network_requests. p_start period \<le> r_timestamp r \<and> r_timestamp r \<le> p_end period
                              \<and> truthy (isAdRelated r)]"

definition mediatailor_count :: "network_request list \<Rightarrow> int" where
  "mediatailor_count requests = (\<Sum>r\<leftarrow>[r \<leftarrow> requests. contains ''mediatailor'' (url r)]. 1)"

definition analytics_count :: "network_request list \<Rightarrow> int" where
  "analytics_count requests = (\<Sum>r\<leftarrow>[r \<leftarrow> requests. contains ''omtrdc.net'' (url r)]. 1)"

text \<open>
  The confidence of an ad period, with the list of signal names:
  \<^verbatim>\<open>
  confidence = 0
  signals = []
  if has_network_signal:
      confidence += WEIGHTS['NETWORK_AD_DETECTED']
      signals.append('network-ad-detected')
  if has_network_signal:  # Proxy for controls being hidden
      confidence += WEIGHTS['PLAYER_CONTROLS_HIDDEN']
      signals.append('controls-hidden')
      confidence += WEIGHTS['BACK_TO_LIVE_HIDDEN']
      signals.append('back-to-live-hidden')
  \<close>
\<close>

definition score_ad :: "weights \<Rightarrow> bool \<Rightarrow> int \<times> string list" where
  "score_ad W has_network_signal =
     (let confidence = 0;
          signals = [];
          (confidence, signals) =
            (if has_network_signal
             then (confidence + NETWORK_AD_DETECTED W, signals @ [''network-ad-detected''])
             else (confidence, signals));
          (confidence, signals) =
            (if has_network_signal
             then (confidence + PLAYER_CONTROLS_HIDDEN W + BACK_TO_LIVE_HIDDEN W,
                   signals @ [''controls-hidden'', ''back-to-live-hidden''])
             else (confidence, signals))
      in (confidence, signals))"

record detection =
  d_mediatailor_count :: int
  d_analytics_count :: int
  d_has_network_signal :: bool
  d_confidence :: int
  d_signals :: "string list"
  d_would_mute :: bool

definition ad_period_test :: "weights \<Rightarrow> network_request list \<Rightarrow> period \<Rightarrow> detection" where
  "ad_period_test W network_requests period =
     (let requests = ad_requests network_requests period;
          mc = mediatailor_count requests;
          ac = analytics_count requests;
          has_network_signal = (mc > 0 \<or> ac > 5);
          (confidence, signals) = score_ad W has_network_signal
      in \<lparr>d_mediatailor_count = mc, d_analytics_count = ac,
          d_has_network_signal = has_network_signal,
          d_confidence = confidence, d_signals = signals,
          d_would_mute = (confidence \<ge> MUTE_THRESHOLD)\<rparr>)"

text \<open>
  The content period test, run once, on the gap between the first two ad periods:
  \<^verbatim>\<open>
  if len(ad_periods) >= 2:
      content_start = ad_periods[0]['end']
      content_end = ad_periods[1]['start']
      content_requests = [r for r in network_requests
          if content_start <= r['timestamp'] <= content_end and r.get('isAdRelated')]
      ...
      # Content may still have some analytics but much less
      has_network_signal = (mediatailor_count > 5 or analytics_count > 20)
      confidence = 0
      if has_network_signal:
          confidence += WEIGHTS['NETWORK_AD_DETECTED']
  \<close>
  \<open>None\<close> is the run that skips the block.
\<close>

definition content_requests :: "network_request list \<Rightarrow> int \<Rightarrow> int \<Rightarrow> network_request list" where
  "content_requests network_requests content_start content_end =
     [r \<leftarrow> network_requests. content_start \<le> r_timestamp r \<and> r_timestamp r \<le> content_end
                              \<and> truthy (isAdRelated r)]"

definition score_content :: "weights \<Rightarrow> bool \<Rightarrow> int" where
  "score_content W has_network_signal =
     (let confidence = 0
      in if has_network_signal then confidence + NETWORK_AD_DETECTED W else confidence)"

record content_check =
  c_start :: int
  c_end :: int
  c_mediatailor_count :: int
  c_analytics_count :: int
  c_has_network_signal :: bool
  c_confidence :: int
  c_would_mute :: bool

definition content_period_test ::
  "weights \<Rightarrow> network_request list \<Rightarrow> period list \<Rightarrow> content_check option" where
  "content_period_test W network_requests periods =
     (if length periods \<ge> 2
      then (let content_start = p_end (periods ! 0);
                content_end = p_start (periods ! 1);
                requests = content_requests network_requests content_start content_end;
                mc = mediatailor_count requests;
                ac = analytics_count requests;
                has_network_signal = (mc > 5 \<or> ac > 20);
                confidence = score_content W has_network_signal
            in Some \<lparr>c_start = content_start, c_end = content_end,
                     c_mediatailor_count = mc, c_analytics_count = ac,
                     c_has_network_signal = has_network_signal,
                     c_confidence = confidence,
                     c_would_mute = \<not> (confidence < MUTE_THRESHOLD)\<rparr>)
      else None)"

text \<open>The whole run: one detection per ad period, then the content period test.\<close>

definition test_nbc_detection ::
  "marker list \<Rightarrow> network_request list \<Rightarrow> detection list \<times> content_check option" where
  "test_nbc_detection markers network_requests =
     (let periods = ad_periods markers
      in (map (ad_period_test WEIGHTS network_requests) periods,
          content_period_test WEIGHTS network_requests periods))"

text \<open>The intervals on which the run computes a content check.\<close>

definition checked_gaps :: "weights \<Rightarrow> network_request list \<Rightarrow> period list \<Rightarrow> (int \<times> int) list" where
  "checked_gaps W network_requests periods =
     (case content_period_test W network_requests periods of
        None \<Rightarrow> []
      | Some c \<Rightarrow> [(c_start c, c_end c)])"

section \<open>Notions of the specification used to state the claims\<close>

text \<open>
  The specification's activation rule of \<open>NETWORK_AD_DETECTED\<close> on an interval: the count
  of ad-delivery requests is positive, or the count of analytics requests exceeds the burst
  threshold. The scripts recognise the two categories by \<open>mediatailor\<close> and \<open>omtrdc.net\<close>
  in the URL of an ad-related request.
\<close>

definition spec_network_ad_detected :: "int \<Rightarrow> network_request list \<Rightarrow> int \<Rightarrow> int \<Rightarrow> bool" where
  "spec_network_ad_detected burst network_requests lo hi =
     (let requests = [r \<leftarrow> network_requests. lo \<le> r_timestamp r \<and> r_timestamp r \<le> hi
                                              \<and> truthy (isAdRelated r)]
      in mediatailor_count requests > 0 \<or> analytics_count requests > burst)"

text \<open>
  The specification's content gaps: between each ad window and the next one, from the end
  of the first to the start of the second.
\<close>

definition spec_content_gaps :: "period list \<Rightarrow> (int \<times> int) list" where
  "spec_content_gaps periods = zip (map p_end periods) (map p_start (tl periods))"

section \<open>The mute/unmute state machine\<close>

text \<open>
  Modelled from the spec: the mute/unmute state machine is not in the two scripts (they
  only compare one confidence with \<open>MUTE_THRESHOLD\<close> per period); it is described in
  section 4.4 of the specification. States \<open>UNMUTED\<close> (initial) and \<open>MUTED\<close>;
  \<open>UNMUTED \<rightarrow> MUTED\<close> fires when the score is at least \<open>muteThreshold\<close>,
  \<open>MUTED \<rightarrow> UNMUTED\<close> when the score is below \<open>unmuteThreshold\<close>; no other
  transition exists, a score that does not fire leaves the state as it is, and every
  transition records its timestamp, the triggering score and the active signals. The step
  is a pure function from the current state and a score to the new state and an optional
  transition event.
\<close>

datatype mute_state = UNMUTED | MUTED

record sm_config =
  muteThreshold :: int
  unmuteThreshold :: int

record sample =
  sa_timestamp :: int
  sa_score :: int
  sa_signals :: "string list"

record transition =
  t_from :: mute_state
  t_to :: mute_state
  t_timestamp :: int
  triggeringScore :: int
  activeSignals :: "string list"

definition sm_step :: "sm_config \<Rightarrow> mute_state \<Rightarrow> sample \<Rightarrow> mute_state \<times> transition option" where
  "sm_step cfg st x =
     (case st of
        UNMUTED \<Rightarrow>
          if sa_score x \<ge> muteThreshold cfg
          then (MUTED, Some \<lparr>t_from = UNMUTED, t_to = MUTED, t_timestamp = sa_timestamp x,
                              triggeringScore = sa_score x, activeSignals = sa_signals x\<rparr>)
          else (UNMUTED, None)
      | MUTED \<Rightarrow>
          if sa_score x < unmuteThreshold cfg
          then (UNMUTED, Some \<lparr>t_from = MUTED, t_to = UNMUTED, t_timestamp = sa_timestamp x,
                                triggeringScore = sa_score x, activeSignals = sa_signals x\<rparr>)
          else (MUTED, None))"

fun sm_run :: "sm_config \<Rightarrow> mute_state \<Rightarrow> sample list \<Rightarrow> transition list" where
  "sm_run cfg st [] = []"
| "sm_run cfg st (x # xs) =
     (case sm_step cfg st x of
        (st', None) \<Rightarrow> sm_run cfg st' xs
      | (st', Some t) \<Rightarrow> t # sm_run cfg st' xs)"

text \<open>
  A recorded sequence alternates from state \<open>st\<close>: each transition leaves the state the
  previous one entered (the first one leaves \<open>st\<close>) and enters the other state.
\<close>

fun alternating_from :: "mute_state \<Rightarrow> transition list \<Rightarrow> bool" where
  "alternating_from st [] = True"
| "alternating_from st (t # ts) =
     (t_from t = st \<and> t_to t \<noteq> t_from t \<and> alternating_from (t_to t) ts)"

section \<open>Example bundles\<close>

text \<open>An analytics beacon and an ad-delivery segment request, both marked ad-related.\<close>

definition beacon :: "int \<Rightarrow> network_request" where
  "beacon t = \<lparr>r_timestamp = t, url = ''nbcume.hb.omtrdc.net/b/ss'', isAdRelated = Some True\<rparr>"

definition segment :: "int \<Rightarrow> network_request" where
  "segment t = \<lparr>r_timestamp = t, url = ''a.mediatailor.amazonaws.com/v1/seg'',
                 isAdRelated = Some True\<rparr>"

definition six_beacons :: "network_request list" where
  "six_beacons = [beacon 1, beacon 2, beacon 3, beacon 4, beacon 5, beacon 6]"

definition mark :: "int \<Rightarrow> marker" where
  "mark t = \<lparr>m_timestamp = t, m_event = ''ad-marker''\<rparr>"

definition window :: "int \<Rightarrow> int \<Rightarrow> period" where
  "window a b = \<lparr>p_start = a, p_end = b, p_duration = b - a\<rparr>"

section \<open>The loop in closed form\<close>

lemma ad_periods_loop_closed:
  "ad_periods_loop markers i acc =
     acc @ map (\<lambda>k. mk_period markers (i + 2 * k)) [0..<(length markers - i) div 2]"
proof (induction markers i acc rule: ad_periods_loop.induct)
  case (1 markers i acc)
  show ?case
  proof (cases "i < length markers")
    case False
    then show ?thesis by (simp add: ad_periods_loop.simps [of markers i acc])
  next
    case in_range: True
    show ?thesis
    proof (cases "i + 1 < length markers")
      case True
      define n where "n = (length markers - (i + 2)) div 2"
      have n: "(length markers - i) div 2 = Suc n" "(length markers - (i + 2)) div 2 = n"
        using True unfolding n_def by presburger+
      have "ad_periods_loop markers i acc =
              ad_periods_loop markers (i + 2) (acc @ [mk_period markers i])"
        using in_range True by (simp add: ad_periods_loop.simps [of markers i acc])
      also have "\<dots> = (acc @ [mk_period markers i]) @
              map (\<lambda>k. mk_period markers (i + 2 + 2 * k)) [0..<n]"
        using "1.IH"(1) [OF in_range True] n by simp
      also have "\<dots> = acc @ map (\<lambda>k. mk_period markers (i + 2 * k)) (0 # map Suc [0..<n])"
        by (simp add: o_def)
      also have "0 # map Suc [0..<n] = [0..<Suc n]"
        by (simp add: map_Suc_upt upt_conv_Cons del: upt_Suc)
      finally show ?thesis using n by simp
    next
      case False
      then have z: "(length markers - i) div 2 = 0" "\<not> i + 2 < length markers"
        using in_range by auto
      have "ad_periods_loop markers i acc = ad_periods_loop markers (i + 2) acc"
        using in_range False by (simp add: ad_periods_loop.simps [of markers i acc])
      also have "\<dots> = acc"
        using z by (subst ad_periods_loop.simps) simp
      finally show ?thesis using z by simp
    qed
  qed
qed

lemma ad_periods_closed:
  "ad_periods markers = map (\<lambda>k. mk_period markers (2 * k)) [0..<length markers div 2]"
  by (simp add: ad_periods_def ad_periods_loop_closed)

lemma ad_periods_length: "length (ad_periods markers) = length markers div 2"
  by (simp add: ad_periods_closed)

lemma ad_periods_nth:
  "i < length markers div 2 \<Longrightarrow> ad_periods markers ! i = mk_period markers (2 * i)"
  by (simp add: ad_periods_closed)

section \<open>Facts about the detection test\<close>

lemma mediatailor_count_Cons:
  "mediatailor_count (r # requests) =
     (if contains ''mediatailor'' (url r) then 1 else 0) + mediatailor_count requests"
  by (simp add: mediatailor_count_def)

lemma analytics_count_Cons:
  "analytics_count (r # requests) =
     (if contains ''omtrdc.net'' (url r) then 1 else 0) + analytics_count requests"
  by (simp add: analytics_count_def)

lemma mediatailor_count_Nil: "mediatailor_count [] = 0"
  by (simp add: mediatailor_count_def)

lemma analytics_count_Nil: "analytics_count [] = 0"
  by (simp add: analytics_count_def)

lemma score_ad_cases:
  "score_ad W b =
     (if b then (NETWORK_AD_DETECTED W + PLAYER_CONTROLS_HIDDEN W + BACK_TO_LIVE_HIDDEN W,
                 [''network-ad-detected'', ''controls-hidden'', ''back-to-live-hidden''])
      else (0, []))"
  by (simp add: score_ad_def)

lemma score_content_cases:
  "score_content W b = (if b then NETWORK_AD_DETECTED W else 0)"
  by (simp add: score_content_def)

lemma ad_period_test_confidence:
  "d_confidence (ad_period_test W reqs p) =
     fst (score_ad W (mediatailor_count (ad_requests reqs p) > 0
                      \<or> analytics_count (ad_requests reqs p) > 5))"
  by (simp add: ad_period_test_def Let_def split: prod.split)


lemma ad_period_test_fields:
  "d_mediatailor_count (ad_period_test W reqs p) = mediatailor_count (ad_requests reqs p)"
  "d_analytics_count (ad_period_test W reqs p) = analytics_count (ad_requests reqs p)"
  "d_has_network_signal (ad_period_test W reqs p) =
     (mediatailor_count (ad_requests reqs p) > 0 \<or> analytics_count (ad_requests reqs p) > 5)"
  "d_would_mute (ad_period_test W reqs p) = (d_confidence (ad_period_test W reqs p) \<ge> MUTE_THRESHOLD)"
  by (simp_all add: ad_period_test_def Let_def split: prod.split)

lemma content_period_test_Some:
  "length ps \<ge> 2 \<Longrightarrow>
   content_period_test W reqs ps =
     Some \<lparr>c_start = p_end (ps ! 0), c_end = p_start (ps ! 1),
           c_mediatailor_count = mediatailor_count (content_requests reqs (p_end (ps ! 0)) (p_start (ps ! 1))),
           c_analytics_count = analytics_count (content_requests reqs (p_end (ps ! 0)) (p_start (ps ! 1))),
           c_has_network_signal =
             (mediatailor_count (content_requests reqs (p_end (ps ! 0)) (p_start (ps ! 1))) > 5
              \<or> analytics_count (content_requests reqs (p_end (ps ! 0)) (p_start (ps ! 1))) > 20),
           c_confidence = score_content W
             (mediatailor_count (content_requests reqs (p_end (ps ! 0)) (p_start (ps ! 1))) > 5
              \<or> analytics_count (content_requests reqs (p_end (ps ! 0)) (p_start (ps ! 1))) > 20),
           c_would_mute = \<not> (score_content W
             (mediatailor_count (content_requests reqs (p_end (ps ! 0)) (p_start (ps ! 1))) > 5
              \<or> analytics_count (content_requests reqs (p_end (ps ! 0)) (p_start (ps ! 1))) > 20)
                < MUTE_THRESHOLD)\<rparr>"
  by (simp add: content_period_test_def Let_def)

lemma content_period_test_None:
  "length ps < 2 \<Longrightarrow> content_period_test W reqs ps = None"
  by (simp add: content_period_test_def)

lemma test_nbc_detection_parts:
  "fst (test_nbc_detection markers reqs) = map (ad_period_test WEIGHTS reqs) (ad_periods markers)"
  "snd (test_nbc_detection markers reqs) = content_period_test WEIGHTS reqs (ad_periods markers)"
  by (simp_all add: test_nbc_detection_def Let_def)

lemma beacon_simps:
  "r_timestamp (beacon t) = t" "truthy (isAdRelated (beacon t))"
  "contains ''omtrdc.net'' (url (beacon t))" "\<not> contains ''mediatailor'' (url (beacon t))"
  by (simp_all add: beacon_def truthy_def)

lemma segment_simps:
  "r_timestamp (segment t) = t" "truthy (isAdRelated (segment t))"
  "contains ''mediatailor'' (url (segment t))" "\<not> contains ''omtrdc.net'' (url (segment t))"
  by (simp_all add: segment_def truthy_def)

lemma window_simps: "p_start (window a b) = a" "p_end (window a b) = b"
  by (simp_all add: window_def)


lemma ad_periods_marks4:
  "ad_periods [mark a, mark b, mark c, mark d] = [window a b, window c d]"
  by (simp add: ad_periods_closed mk_period_def upt_conv_Cons mark_def window_def)

lemma ad_periods_marks6:
  "ad_periods [mark a, mark b, mark c, mark d, mark e, mark f]
     = [window a b, window c d, window e f]"
  by (simp add: ad_periods_closed mk_period_def upt_conv_Cons mark_def window_def)

lemma six_beacons_counts:
  "ad_requests six_beacons (window 0 100) = six_beacons"
  "mediatailor_count six_beacons = 0" "analytics_count six_beacons = 6"
  by (simp_all add: six_beacons_def ad_requests_def window_simps beacon_simps
        mediatailor_count_Cons analytics_count_Cons mediatailor_count_Nil analytics_count_Nil)

section \<open>Marker pairing\<close>




text \<open>
  Claim C6: an ordered marker sequence of even length \<open>2n\<close> gives exactly \<open>n\<close> windows,
  and window \<open>i\<close> (from 0) starts at the timestamp of marker \<open>2i\<close> and ends at the
  timestamp of marker \<open>2i + 1\<close>.
\<close>

theorem even_markers_paired:
  assumes "length markers = 2 * n"
  shows "build_windows markers = Inr (ad_periods markers)
         \<and> length (ad_periods markers) = n
         \<and> (\<forall>i<n. p_start (ad_periods markers ! i) = m_timestamp (markers ! (2 * i))
                 \<and> p_end (ad_periods markers ! i) = m_timestamp (markers ! (2 * i + 1)))"
  using assms by (simp add: build_windows_def ad_periods_length ad_periods_nth mk_period_def)

theorem even_markers_paired_witness:
  "length [\<lparr>m_timestamp = 100, m_event = ''ad-start''\<rparr>,
           \<lparr>m_timestamp = 250, m_event = ''ad-end''\<rparr>] = 2 * 1
   \<and> length (ad_periods [\<lparr>m_timestamp = 100, m_event = ''ad-start''\<rparr>,
                          \<lparr>m_timestamp = 250, m_event = ''ad-end''\<rparr>]) = 1
   \<and> p_start (ad_periods [\<lparr>m_timestamp = 100, m_event = ''ad-start''\<rparr>,
                           \<lparr>m_timestamp = 250, m_event = ''ad-end''\<rparr>] ! 0) = 100
   \<and> p_end (ad_periods [\<lparr>m_timestamp = 100, m_event = ''ad-start''\<rparr>,
                         \<lparr>m_timestamp = 250, m_event = ''ad-end''\<rparr>] ! 0) = 250"
  using even_markers_paired [of "[\<lparr>m_timestamp = 100, m_event = ''ad-start''\<rparr>,
                                  \<lparr>m_timestamp = 250, m_event = ''ad-end''\<rparr>]" 1]
  by simp

text \<open>
  Claim C7: when the marker timestamps are in non-decreasing order, every window built
  ends no earlier than it starts, and the windows do not overlap: a window ends no later
  than every later window starts (the next one in particular).
\<close>

theorem sorted_markers_windows:
  assumes "sorted (map m_timestamp markers)"
  shows "(\<forall>p \<in> set (ad_periods markers). p_start p \<le> p_end p)
         \<and> (\<forall>i j. i < j \<and> j < length (ad_periods markers) \<longrightarrow>
                p_end (ad_periods markers ! i) \<le> p_start (ad_periods markers ! j))"
proof -
  have mono: "m_timestamp (markers ! a) \<le> m_timestamp (markers ! b)"
    if "a \<le> b" "b < length markers" for a b
    using assms that by (simp add: sorted_iff_nth_mono)
  have wf: "p_start p \<le> p_end p" if "p \<in> set (ad_periods markers)" for p
  proof -
    from that obtain k where k: "k < length markers div 2" "p = mk_period markers (2 * k)"
      by (auto simp: ad_periods_closed)
    then have "2 * k + 1 < length markers" by presburger
    then show ?thesis using k mono [of "2 * k" "2 * k + 1"] by (simp add: mk_period_def)
  qed
  have sep: "p_end (ad_periods markers ! i) \<le> p_start (ad_periods markers ! j)"
    if "i < j" "j < length (ad_periods markers)" for i j
  proof -
    have j: "j < length markers div 2" using that by (simp add: ad_periods_length)
    then have "2 * j < length markers" "2 * i + 1 \<le> 2 * j" using that by presburger+
    then show ?thesis
      using that j mono [of "2 * i + 1" "2 * j"] by (simp add: ad_periods_nth mk_period_def)
  qed
  show ?thesis using wf sep by blast
qed

theorem sorted_markers_windows_witness:
  "sorted (map m_timestamp [mark 0, mark 10, mark 10, mark 30])
   \<and> ad_periods [mark 0, mark 10, mark 10, mark 30] = [window 0 10, window 10 30]
   \<and> p_start (ad_periods [mark 0, mark 10, mark 10, mark 30] ! 0)
       \<le> p_end (ad_periods [mark 0, mark 10, mark 10, mark 30] ! 0)
   \<and> p_end (ad_periods [mark 0, mark 10, mark 10, mark 30] ! 0)
       \<le> p_start (ad_periods [mark 0, mark 10, mark 10, mark 30] ! 1)"
proof -
  have ps: "ad_periods [mark 0, mark 10, mark 10, mark 30] = [window 0 10, window 10 30]"
    by (rule ad_periods_marks4)
  have srt: "sorted (map m_timestamp [mark 0, mark 10, mark 10, mark 30])"
    by (simp add: mark_def)
  show ?thesis
    using sorted_markers_windows [OF srt] ps srt by (simp add: window_def)
qed

section \<open>Scoring under the script's configuration\<close>




section \<open>Bounds and monotonicity of the confidence\<close>

text \<open>
  Claim C4: for every weight table with non-negative weights and every input (request
  list, period, list of periods), the confidence computed for an ad period and the
  confidence computed for the content period lie between 0 and the sum of all weights of
  the table.
\<close>

theorem confidence_bounded:
  assumes "nonneg_weights W"
  shows "0 \<le> d_confidence (ad_period_test W reqs p)
         \<and> d_confidence (ad_period_test W reqs p) \<le> sum_weights W
         \<and> (\<forall>c. content_period_test W reqs ps = Some c \<longrightarrow>
                0 \<le> c_confidence c \<and> c_confidence c \<le> sum_weights W)"
proof -
  have ad: "0 \<le> fst (score_ad W b) \<and> fst (score_ad W b) \<le> sum_weights W" for b
    using assms by (simp add: score_ad_cases nonneg_weights_def sum_weights_def)
  have co: "0 \<le> score_content W b \<and> score_content W b \<le> sum_weights W" for b
    using assms by (simp add: score_content_cases nonneg_weights_def sum_weights_def)
  have "0 \<le> c_confidence c \<and> c_confidence c \<le> sum_weights W"
    if "content_period_test W reqs ps = Some c" for c
  proof (cases "length ps \<ge> 2")
    case True
    from that content_period_test_Some [OF True, of W reqs]
    obtain b where "c_confidence c = score_content W b" by auto
    then show ?thesis using co by simp
  next
    case False
    then show ?thesis using that by (simp add: content_period_test_None)
  qed
  then show ?thesis using ad by (simp add: ad_period_test_confidence)
qed

theorem confidence_bounded_witness:
  "nonneg_weights WEIGHTS
   \<and> sum_weights WEIGHTS = 135
   \<and> d_confidence (ad_period_test WEIGHTS six_beacons (window 0 100)) = 105
   \<and> 0 \<le> d_confidence (ad_period_test WEIGHTS six_beacons (window 0 100))
   \<and> d_confidence (ad_period_test WEIGHTS six_beacons (window 0 100)) \<le> sum_weights WEIGHTS
   \<and> (\<exists>c. content_period_test WEIGHTS six_beacons [window 0 10, window 20 30] = Some c
          \<and> 0 \<le> c_confidence c \<and> c_confidence c \<le> sum_weights WEIGHTS)"
proof -
  have nn: "nonneg_weights WEIGHTS"
    by (simp add: nonneg_weights_def WEIGHTS_def)
  have "\<exists>c. content_period_test WEIGHTS six_beacons [window 0 10, window 20 30] = Some c"
    by (simp add: content_period_test_Some)
  then show ?thesis
    using confidence_bounded [OF nn, of six_beacons "window 0 100" "[window 0 10, window 20 30]"] nn
    by (auto simp: sum_weights_def WEIGHTS_def ad_period_test_confidence six_beacons_counts
          score_ad_cases)
qed




section \<open>The activation rule of the network signal\<close>

lemma content_requests_ad_requests:
  "content_requests reqs (p_start p) (p_end p) = ad_requests reqs p"
  by (simp add: content_requests_def ad_requests_def)

lemma spec_network_ad_detected_content:
  "spec_network_ad_detected burst reqs lo hi \<longleftrightarrow>
     mediatailor_count (content_requests reqs lo hi) > 0
     \<or> analytics_count (content_requests reqs lo hi) > burst"
  by (simp add: spec_network_ad_detected_def content_requests_def Let_def)

text \<open>
  Claim C2, as stated: on every evaluation interval, content gaps included, the network
  signal is active exactly when there is an ad-delivery request or more analytics requests
  than the burst threshold 5. In the content period test one ad-delivery request in the
  gap leaves the signal inactive, where the rule of the claim makes it active.
\<close>

theorem content_gap_rule_counterexample:
  "content_period_test WEIGHTS [segment 15] [window 0 10, window 20 30]
     = Some \<lparr>c_start = 10, c_end = 20, c_mediatailor_count = 1, c_analytics_count = 0,
             c_has_network_signal = False, c_confidence = 0, c_would_mute = False\<rparr>
   \<and> spec_network_ad_detected 5 [segment 15] 10 20"
  by (simp add: content_period_test_Some spec_network_ad_detected_content window_simps
        content_requests_def segment_simps mediatailor_count_Cons analytics_count_Cons
        mediatailor_count_Nil analytics_count_Nil score_content_cases MUTE_THRESHOLD_def)

text \<open>
  Claim C2, amended: on an ad window the network signal is active exactly when the count
  of ad-delivery requests in the window is positive or the count of analytics requests
  exceeds 5. On the content gap the test applies a different rule: the signal is active
  exactly when the count of ad-delivery requests exceeds 5 or the count of analytics
  requests exceeds 20; whenever that rule fires, the rule of the ad windows holds on the
  gap as well.
\<close>

theorem network_signal_rules:
  "d_has_network_signal (ad_period_test W reqs p)
     = spec_network_ad_detected 5 reqs (p_start p) (p_end p)
   \<and> (\<forall>c. content_period_test W reqs ps = Some c \<longrightarrow>
         c_mediatailor_count c = mediatailor_count (content_requests reqs (c_start c) (c_end c))
         \<and> c_analytics_count c = analytics_count (content_requests reqs (c_start c) (c_end c))
         \<and> c_has_network_signal c = (c_mediatailor_count c > 5 \<or> c_analytics_count c > 20)
         \<and> (c_has_network_signal c \<longrightarrow>
              spec_network_ad_detected 5 reqs (c_start c) (c_end c)))"
proof -
  have ad: "d_has_network_signal (ad_period_test W reqs p)
              = spec_network_ad_detected 5 reqs (p_start p) (p_end p)"
    by (simp add: ad_period_test_fields spec_network_ad_detected_content
          content_requests_ad_requests)
  have co: "c_mediatailor_count c = mediatailor_count (content_requests reqs (c_start c) (c_end c))
         \<and> c_analytics_count c = analytics_count (content_requests reqs (c_start c) (c_end c))
         \<and> c_has_network_signal c = (c_mediatailor_count c > 5 \<or> c_analytics_count c > 20)
         \<and> (c_has_network_signal c \<longrightarrow>
              spec_network_ad_detected 5 reqs (c_start c) (c_end c))"
    if "content_period_test W reqs ps = Some c" for c
  proof (cases "length ps \<ge> 2")
    case True
    from that content_period_test_Some [OF True, of W reqs]
    have c: "c_start c = p_end (ps ! 0)" "c_end c = p_start (ps ! 1)"
      "c_mediatailor_count c = mediatailor_count (content_requests reqs (p_end (ps ! 0)) (p_start (ps ! 1)))"
      "c_analytics_count c = analytics_count (content_requests reqs (p_end (ps ! 0)) (p_start (ps ! 1)))"
      "c_has_network_signal c =
         (mediatailor_count (content_requests reqs (p_end (ps ! 0)) (p_start (ps ! 1))) > 5
          \<or> analytics_count (content_requests reqs (p_end (ps ! 0)) (p_start (ps ! 1))) > 20)"
      by auto
    show ?thesis
      unfolding c spec_network_ad_detected_content by auto
  next
    case False
    then show ?thesis using that by (simp add: content_period_test_None)
  qed
  show ?thesis using ad co by blast
qed

theorem network_signal_rules_witness:
  "d_has_network_signal (ad_period_test WEIGHTS [segment 15] (window 10 20))
   \<and> spec_network_ad_detected 5 [segment 15] 10 20
   \<and> (\<exists>c. content_period_test WEIGHTS [segment 15] [window 0 10, window 20 30] = Some c
          \<and> c_mediatailor_count c = 1 \<and> c_analytics_count c = 0
          \<and> \<not> c_has_network_signal c)"
proof -
  have c: "content_period_test WEIGHTS [segment 15] [window 0 10, window 20 30]
     = Some \<lparr>c_start = 10, c_end = 20, c_mediatailor_count = 1, c_analytics_count = 0,
             c_has_network_signal = False, c_confidence = 0, c_would_mute = False\<rparr>"
    by (simp add: content_period_test_Some window_simps
        content_requests_def segment_simps mediatailor_count_Cons analytics_count_Cons
        mediatailor_count_Nil analytics_count_Nil score_content_cases MUTE_THRESHOLD_def)
  have s: "spec_network_ad_detected 5 [segment 15] 10 20"
    by (simp add: spec_network_ad_detected_content
        content_requests_def segment_simps mediatailor_count_Cons analytics_count_Cons
        mediatailor_count_Nil analytics_count_Nil)
  show ?thesis
    using network_signal_rules [of WEIGHTS "[segment 15]" "window 10 20"
        "[window 0 10, window 20 30]"] c s
    by (simp add: window_simps)
qed

section \<open>The content period test\<close>

lemma checked_gaps_take:
  "checked_gaps W reqs ps = take 1 (spec_content_gaps ps)"
proof (cases "length ps \<ge> 2")
  case True
  then obtain a b rest where ps: "ps = a # b # rest"
    by (cases ps; cases "tl ps") auto
  show ?thesis
    unfolding ps by (simp add: checked_gaps_def content_period_test_Some spec_content_gaps_def)
next
  case False
  then have "ps = [] \<or> (\<exists>a. ps = [a])"
    by (cases ps; cases "tl ps") auto
  then show ?thesis
    using False by (auto simp: checked_gaps_def content_period_test_None spec_content_gaps_def)
qed

text \<open>
  Claim C8, as stated: the false-positive check is computed on every content gap between
  consecutive ad windows. With three ad windows there are two gaps, and the run checks
  the first one only: the gap from 30 to 40 is never scored.
\<close>

theorem content_gaps_counterexample:
  "ad_periods [mark 0, mark 10, mark 20, mark 30, mark 40, mark 50]
     = [window 0 10, window 20 30, window 40 50]
   \<and> spec_content_gaps (ad_periods [mark 0, mark 10, mark 20, mark 30, mark 40, mark 50])
     = [(10, 20), (30, 40)]
   \<and> checked_gaps WEIGHTS [] (ad_periods [mark 0, mark 10, mark 20, mark 30, mark 40, mark 50])
     = [(10, 20)]
   \<and> (30, 40) \<notin> set (checked_gaps WEIGHTS []
                        (ad_periods [mark 0, mark 10, mark 20, mark 30, mark 40, mark 50]))
   \<and> snd (test_nbc_detection [mark 0, mark 10, mark 20, mark 30, mark 40, mark 50] [])
     = Some \<lparr>c_start = 10, c_end = 20, c_mediatailor_count = 0, c_analytics_count = 0,
             c_has_network_signal = False, c_confidence = 0, c_would_mute = False\<rparr>"
  by (simp add: ad_periods_marks6 checked_gaps_take spec_content_gaps_def window_simps
        test_nbc_detection_parts content_period_test_Some content_requests_def
        mediatailor_count_Nil analytics_count_Nil score_content_cases MUTE_THRESHOLD_def)

text \<open>
  Claim C8, amended: for any number of ad windows that is at least 2, the run computes
  the false-positive check on exactly one content gap, the one between the first and the
  second ad window (from the end of window 0 to the start of window 1); with fewer than
  two windows it computes none. With the weights and threshold of the script that check
  never decides to mute.
\<close>

theorem content_check_first_gap_only:
  "checked_gaps W reqs ps = take 1 (spec_content_gaps ps)
   \<and> (content_period_test W reqs ps = None) = (length ps < 2)
   \<and> (\<forall>c. content_period_test WEIGHTS reqs ps = Some c \<longrightarrow>
         c_start c = p_end (ps ! 0) \<and> c_end c = p_start (ps ! 1) \<and> \<not> c_would_mute c)"
proof -
  have none: "(content_period_test W reqs ps = None) = (length ps < 2)"
    by (simp add: content_period_test_def Let_def)
  have "c_start c = p_end (ps ! 0) \<and> c_end c = p_start (ps ! 1) \<and> \<not> c_would_mute c"
    if "content_period_test WEIGHTS reqs ps = Some c" for c
  proof (cases "length ps \<ge> 2")
    case True
    from that content_period_test_Some [OF True, of WEIGHTS reqs]
    obtain b where "c_start c = p_end (ps ! 0)" "c_end c = p_start (ps ! 1)"
      "c_would_mute c = (\<not> score_content WEIGHTS b < MUTE_THRESHOLD)"
      by auto
    then show ?thesis
      by (simp add: score_content_cases WEIGHTS_def MUTE_THRESHOLD_def)
  next
    case False
    then show ?thesis using that by (simp add: content_period_test_None)
  qed
  then show ?thesis using none checked_gaps_take by blast
qed

theorem content_check_first_gap_only_witness:
  "checked_gaps WEIGHTS [] [window 0 10, window 20 30, window 40 50] = [(10, 20)]
   \<and> (\<exists>c. content_period_test WEIGHTS [] [window 0 10, window 20 30, window 40 50] = Some c
          \<and> c_start c = 10 \<and> c_end c = 20 \<and> \<not> c_would_mute c)"
proof -
  have "\<exists>c. content_period_test WEIGHTS [] [window 0 10, window 20 30, window 40 50] = Some c"
    by (simp add: content_period_test_Some)
  then show ?thesis
    using content_check_first_gap_only [of WEIGHTS "[]" "[window 0 10, window 20 30, window 40 50]"]
    by (auto simp: spec_content_gaps_def window_simps)
qed

section \<open>Events on the boundary of a window\<close>



section \<open>Transitions of the state machine\<close>

lemma sm_run_alternating: "alternating_from st (sm_run cfg st xs)"
proof (induction xs arbitrary: st)
  case Nil
  show ?case by simp
next
  case (Cons x xs)
  show ?case
  proof (cases "sm_step cfg st x")
    case (Pair st' ev)
    show ?thesis
    proof (cases ev)
      case None
      with Pair have "st' = st"
        by (cases st) (auto simp: sm_step_def split: if_splits)
      with Pair None Cons.IH [of st] show ?thesis by simp
    next
      case (Some t)
      with Pair have "t_from t = st" "t_to t = st'" "st' \<noteq> st"
        by (cases st; auto simp: sm_step_def split: if_splits)+
      with Pair Some Cons.IH [of st'] show ?thesis by simp
    qed
  qed
qed

lemma mute_state_flip: "(a::mute_state) \<noteq> b \<Longrightarrow> b \<noteq> c \<Longrightarrow> a = c"
  by (cases a; cases b; cases c) simp_all

lemma alternating_from_changes:
  "alternating_from st ts \<Longrightarrow> t \<in> set ts \<Longrightarrow> t_to t \<noteq> t_from t"
  by (induction ts arbitrary: st) auto

lemma alternating_from_chain:
  "alternating_from st ts \<Longrightarrow> Suc k < length ts \<Longrightarrow> t_from (ts ! Suc k) = t_to (ts ! k)"
proof (induction ts arbitrary: st k)
  case Nil
  then show ?case by simp
next
  case (Cons t ts)
  show ?case
  proof (cases k)
    case 0
    with Cons.prems show ?thesis by (cases ts) auto
  next
    case (Suc j)
    with Cons.prems Cons.IH [of "t_to t" j] show ?thesis by simp
  qed
qed

text \<open>
  Claim C9: over every sequence of scores fed to the state machine, from either state and
  for any thresholds, the recorded transitions alternate strictly: none is
  \<open>MUTED \<rightarrow> MUTED\<close> or \<open>UNMUTED \<rightarrow> UNMUTED\<close>, each one leaves the state the
  previous one entered, and a score that does not call for a change of state records
  nothing.
\<close>

theorem transitions_alternate:
  "alternating_from st (sm_run cfg st xs)
   \<and> (\<forall>t \<in> set (sm_run cfg st xs). t_from t \<noteq> t_to t)
   \<and> (\<forall>k. Suc k < length (sm_run cfg st xs) \<longrightarrow>
         t_from (sm_run cfg st xs ! Suc k) = t_to (sm_run cfg st xs ! k)
         \<and> t_to (sm_run cfg st xs ! Suc k) = t_from (sm_run cfg st xs ! k))
   \<and> (snd (sm_step cfg st x) = None \<longrightarrow> fst (sm_step cfg st x) = st)
   \<and> (sm_step cfg MUTED x = (MUTED, None) \<or> fst (sm_step cfg MUTED x) = UNMUTED)
   \<and> (sm_step cfg UNMUTED x = (UNMUTED, None) \<or> fst (sm_step cfg UNMUTED x) = MUTED)"
proof -
  let ?ts = "sm_run cfg st xs"
  have alt: "alternating_from st ?ts"
    by (rule sm_run_alternating)
  have chg: "\<forall>t \<in> set ?ts. t_from t \<noteq> t_to t"
    using alternating_from_changes [OF alt] by fastforce
  have chain: "t_from (?ts ! Suc k) = t_to (?ts ! k) \<and> t_to (?ts ! Suc k) = t_from (?ts ! k)"
    if "Suc k < length ?ts" for k
  proof -
    have a: "t_from (?ts ! Suc k) = t_to (?ts ! k)"
      using alternating_from_chain [OF alt that] .
    have "t_from (?ts ! Suc k) \<noteq> t_to (?ts ! Suc k)" "t_from (?ts ! k) \<noteq> t_to (?ts ! k)"
      using chg that by simp_all
    then have "t_to (?ts ! Suc k) = t_from (?ts ! k)"
      using a by (intro mute_state_flip [of _ "t_from (?ts ! Suc k)"]) simp_all
    with a show ?thesis by simp
  qed
  have st1: "snd (sm_step cfg st x) = None \<longrightarrow> fst (sm_step cfg st x) = st"
    by (cases st) (simp_all add: sm_step_def)
  have st2: "sm_step cfg MUTED x = (MUTED, None) \<or> fst (sm_step cfg MUTED x) = UNMUTED"
    by (simp add: sm_step_def)
  have st3: "sm_step cfg UNMUTED x = (UNMUTED, None) \<or> fst (sm_step cfg UNMUTED x) = MUTED"
    by (simp add: sm_step_def)
  from chain have chain': "\<forall>k. Suc k < length ?ts \<longrightarrow>
         t_from (?ts ! Suc k) = t_to (?ts ! k) \<and> t_to (?ts ! Suc k) = t_from (?ts ! k)"
    by simp
  from alt chg chain' st1 st2 st3 show ?thesis
    by (intro conjI)
qed

theorem transitions_alternate_witness:
  "map (\<lambda>t. (t_from t, t_to t, triggeringScore t))
     (sm_run \<lparr>muteThreshold = 50, unmuteThreshold = 30\<rparr> UNMUTED
        [\<lparr>sa_timestamp = 1, sa_score = 45, sa_signals = []\<rparr>,
         \<lparr>sa_timestamp = 2, sa_score = 80, sa_signals = []\<rparr>,
         \<lparr>sa_timestamp = 3, sa_score = 105, sa_signals = []\<rparr>,
         \<lparr>sa_timestamp = 4, sa_score = 40, sa_signals = []\<rparr>,
         \<lparr>sa_timestamp = 5, sa_score = 0, sa_signals = []\<rparr>,
         \<lparr>sa_timestamp = 6, sa_score = 0, sa_signals = []\<rparr>])
     = [(UNMUTED, MUTED, 80), (MUTED, UNMUTED, 0)]
   \<and> alternating_from UNMUTED
       (sm_run \<lparr>muteThreshold = 50, unmuteThreshold = 30\<rparr> UNMUTED
        [\<lparr>sa_timestamp = 1, sa_score = 45, sa_signals = []\<rparr>,
         \<lparr>sa_timestamp = 2, sa_score = 80, sa_signals = []\<rparr>,
         \<lparr>sa_timestamp = 3, sa_score = 105, sa_signals = []\<rparr>,
         \<lparr>sa_timestamp = 4, sa_score = 40, sa_signals = []\<rparr>,
         \<lparr>sa_timestamp = 5, sa_score = 0, sa_signals = []\<rparr>,
         \<lparr>sa_timestamp = 6, sa_score = 0, sa_signals = []\<rparr>])"
  using transitions_alternate [of UNMUTED "\<lparr>muteThreshold = 50, unmuteThreshold = 30\<rparr>"
        "[\<lparr>sa_timestamp = 1, sa_score = 45, sa_signals = []\<rparr>,
         \<lparr>sa_timestamp = 2, sa_score = 80, sa_signals = []\<rparr>,
         \<lparr>sa_timestamp = 3, sa_score = 105, sa_signals = []\<rparr>,
         \<lparr>sa_timestamp = 4, sa_score = 40, sa_signals = []\<rparr>,
         \<lparr>sa_timestamp = 5, sa_score = 0, sa_signals = []\<rparr>,
         \<lparr>sa_timestamp = 6, sa_score = 0, sa_signals = []\<rparr>]"]
  by (simp add: sm_step_def)

end
